theory Spec2Isabelle
  imports
    Complex_Main
    "HOL-Library.AList"
    "HOL-Library.Char_ord"
    "HOL-Library.List_Lexorder"
    "HOL-Library.Log_Nat"
begin

section \<open>Data model (types.ts, constants.ts)\<close>

text \<open>
  The enum \<open>ClassGrade\<close> of types.ts; its string values are given by \<open>gradeLabel\<close>.
  \<open>CLASS_GRADES\<close> and \<open>CLASS_STRENGTHS\<close> are the two tables of constants.ts.
\<close>

datatype ClassGrade = SIXTH | SEVENTH | EIGHTH | NINTH | TENTH

fun gradeLabel :: "ClassGrade \<Rightarrow> string" where
  "gradeLabel SIXTH = ''6th Grade''"
| "gradeLabel SEVENTH = ''7th Grade''"
| "gradeLabel EIGHTH = ''8th Grade''"
| "gradeLabel NINTH = ''9th Grade''"
| "gradeLabel TENTH = ''10th Grade''"

definition CLASS_GRADES :: "ClassGrade list" where
  "CLASS_GRADES = [SIXTH, SEVENTH, EIGHTH, NINTH, TENTH]"

fun CLASS_STRENGTHS :: "ClassGrade \<Rightarrow> int" where
  "CLASS_STRENGTHS SIXTH = 19"
| "CLASS_STRENGTHS SEVENTH = 48"
| "CLASS_STRENGTHS EIGHTH = 47"
| "CLASS_STRENGTHS NINTH = 56"
| "CLASS_STRENGTHS TENTH = 66"

text \<open>
  \<open>DailyAttendanceRecord\<close>: the two counts are JavaScript numbers that the input handler
  obtains from \<open>parseInt(..., 10) || 0\<close>, hence integers of either sign.
\<close>

record DailyAttendanceRecord =
  present :: int
  absent :: int

text \<open>
  \<open>ClassAttendanceData\<close>: every grade key is optional and maps to an object keyed by date
  string.  The inner object is an association list in insertion order (a JavaScript object
  keeps one entry per key; \<open>AList.update\<close> replaces in place or appends, as a spread followed
  by a computed key does).
\<close>

type_synonym DateMap = "(string \<times> DailyAttendanceRecord) list"
type_synonym ClassAttendanceData = "ClassGrade \<Rightarrow> DateMap option"
type_synonym EditBuffer = "ClassGrade \<Rightarrow> DailyAttendanceRecord option"

text \<open>
  The entry of the structure at a grade and a date: the own property of the grade's object
  under the date key.  The handlers read \<open>classAttendanceData[grade]?.[selectedDate]\<close>; the
  selected date is made by \<open>toISOString\<close>, and under such a key the read finds own
  entries only.  The exporters read at every key of the store; their read is
  \<open>readDailyRecord\<close> below.
\<close>

definition recordAt :: "ClassAttendanceData \<Rightarrow> ClassGrade \<Rightarrow> string \<Rightarrow> DailyAttendanceRecord option" where
  "recordAt data grade date = (case data grade of None \<Rightarrow> None | Some m \<Rightarrow> map_of m date)"

text \<open>The read \<open>classAttendanceData[grade]?.[selectedDate] || { present: 0, absent: 0 }\<close>.\<close>

definition zeroRecord :: DailyAttendanceRecord where
  "zeroRecord = \<lparr>present = 0, absent = 0\<rparr>"

definition recordOrZero :: "ClassAttendanceData \<Rightarrow> ClassGrade \<Rightarrow> string \<Rightarrow> DailyAttendanceRecord" where
  "recordOrZero data grade date = (case recordAt data grade date of None \<Rightarrow> zeroRecord | Some r \<Rightarrow> r)"

text \<open>The spread \<open>...prevData[grade]\<close>: an undefined operand contributes no entries.\<close>

definition spreadDates :: "DateMap option \<Rightarrow> DateMap" where
  "spreadDates m = (case m of None \<Rightarrow> [] | Some entries \<Rightarrow> entries)"

section \<open>The component state and its handlers (App.tsx)\<close>

record AppState =
  classAttendanceData :: ClassAttendanceData
  selectedDate :: string
  editingDailyAttendance :: EditBuffer
  isBulkEditing :: bool

datatype Field = Present | Absent

text \<open>
  The updater that \<open>handleUpdateDailyClassAttendance\<close> passes to
  \<open>setClassAttendanceData\<close>.
\<close>

definition updateClassAttendanceData ::
  "ClassGrade \<Rightarrow> string \<Rightarrow> int \<Rightarrow> int \<Rightarrow> ClassAttendanceData \<Rightarrow> ClassAttendanceData" where
  "updateClassAttendanceData grade date p a prevData =
     (let updatedGradeAttendance =
            AList.update date \<lparr>present = p, absent = a\<rparr> (spreadDates (prevData grade))
      in prevData(grade \<mapsto> updatedGradeAttendance))"

text \<open>
  \<open>handleUpdateDailyClassAttendance\<close>: the store update, then the grade leaves the edit
  buffer unless bulk editing is active.  The callback is rebuilt whenever \<open>isBulkEditing\<close>
  changes, so the flag it closes over is the one of the state the call is made in.
\<close>

definition handleUpdateDailyClassAttendance ::
  "ClassGrade \<Rightarrow> string \<Rightarrow> int \<Rightarrow> int \<Rightarrow> AppState \<Rightarrow> AppState" where
  "handleUpdateDailyClassAttendance grade date p a s =
     s\<lparr>classAttendanceData := updateClassAttendanceData grade date p a (classAttendanceData s),
       editingDailyAttendance :=
         (if \<not> isBulkEditing s then (editingDailyAttendance s)(grade := None)
          else editingDailyAttendance s)\<rparr>"

text \<open>
  \<open>handleEditInputChange\<close>: the buffered pair of the grade (or \<open>{present: 0, absent: 0}\<close>
  when the buffer has none) with the one field replaced.  The handler reads the edit buffer
  only, never the store.  \<open>setField\<close> is the object \<open>{...currentEdit, [field]: value}\<close>.
\<close>

fun setField :: "Field \<Rightarrow> int \<Rightarrow> DailyAttendanceRecord \<Rightarrow> DailyAttendanceRecord" where
  "setField Present v currentEdit = currentEdit\<lparr>present := v\<rparr>"
| "setField Absent v currentEdit = currentEdit\<lparr>absent := v\<rparr>"

definition handleEditInputChange :: "ClassGrade \<Rightarrow> Field \<Rightarrow> int \<Rightarrow> AppState \<Rightarrow> AppState" where
  "handleEditInputChange grade field v s =
     (let prev = editingDailyAttendance s;
          currentEdit = (case prev grade of None \<Rightarrow> zeroRecord | Some r \<Rightarrow> r)
      in s\<lparr>editingDailyAttendance := prev(grade \<mapsto> setField field v currentEdit)\<rparr>)"

text \<open>
  \<open>handleBulkEditClick\<close>: the buffer is rebuilt from the store's values on the selected
  date, one entry per grade of \<open>CLASS_GRADES\<close>.
\<close>

definition handleBulkEditClick :: "AppState \<Rightarrow> AppState" where
  "handleBulkEditClick s =
     s\<lparr>isBulkEditing := True,
       editingDailyAttendance :=
         foldl (\<lambda>initialBulkEditState grade.
                  initialBulkEditState
                    (grade \<mapsto> recordOrZero (classAttendanceData s) grade (selectedDate s)))
               Map.empty CLASS_GRADES\<rparr>"

text \<open>
  \<open>handleSaveAllClick\<close>: every grade with a buffered pair is committed on the selected date
  (buffer and date are the ones the click handler closed over), then the buffer is emptied
  and bulk mode left.
\<close>

definition handleSaveAllClick :: "AppState \<Rightarrow> AppState" where
  "handleSaveAllClick s =
     (foldl (\<lambda>st grade.
               case editingDailyAttendance s grade of
                 None \<Rightarrow> st
               | Some editedRecord \<Rightarrow>
                   handleUpdateDailyClassAttendance grade (selectedDate s)
                     (present editedRecord) (absent editedRecord) st)
            s CLASS_GRADES)
       \<lparr>editingDailyAttendance := Map.empty, isBulkEditing := False\<rparr>"

definition handleCancelBulkEditClick :: "AppState \<Rightarrow> AppState" where
  "handleCancelBulkEditClick s = s\<lparr>editingDailyAttendance := Map.empty, isBulkEditing := False\<rparr>"

text \<open>
  \<open>goToPreviousDay\<close> and \<open>goToNextDay\<close>.  The calendar arithmetic is done by the host's
  \<open>Date\<close> object (\<open>setDate(getDate() \<plusminus> 1)\<close>, \<open>toISOString\<close>); it enters as the parameter
  \<open>shiftDate\<close>, called with the offset in days.
\<close>

definition goToPreviousDay :: "(int \<Rightarrow> string \<Rightarrow> string) \<Rightarrow> AppState \<Rightarrow> AppState" where
  "goToPreviousDay shiftDate s =
     s\<lparr>selectedDate := shiftDate (- 1) (selectedDate s),
       editingDailyAttendance := Map.empty,
       isBulkEditing := False\<rparr>"

definition goToNextDay :: "(int \<Rightarrow> string \<Rightarrow> string) \<Rightarrow> AppState \<Rightarrow> AppState" where
  "goToNextDay shiftDate s =
     s\<lparr>selectedDate := shiftDate 1 (selectedDate s),
       editingDailyAttendance := Map.empty,
       isBulkEditing := False\<rparr>"

subsection \<open>Loading\<close>

definition INITIAL_CLASS_ATTENDANCE_DATA :: ClassAttendanceData where
  "INITIAL_CLASS_ATTENDANCE_DATA = foldl (\<lambda>acc grade. acc(grade \<mapsto> [])) Map.empty CLASS_GRADES"

text \<open>
  The initialiser of the \<open>classAttendanceData\<close> state.  \<open>localStorage.getItem\<close> either
  throws or returns a string or null; \<open>JSON.parse\<close> (a parameter, it belongs to the host)
  either throws or returns the snapshot.  An empty string is falsy.  Every exception ends
  in the \<open>catch\<close> branch.
\<close>

datatype error = StorageError | SyntaxError | TypeError

definition load ::
  "(error + string option) \<Rightarrow> (string \<Rightarrow> error + ClassAttendanceData) \<Rightarrow> ClassAttendanceData" where
  "load getItem JSON_parse =
     (case getItem of
        Inl e \<Rightarrow> INITIAL_CLASS_ATTENDANCE_DATA
      | Inr None \<Rightarrow> INITIAL_CLASS_ATTENDANCE_DATA
      | Inr (Some storedData) \<Rightarrow>
          if storedData = [] then INITIAL_CLASS_ATTENDANCE_DATA
          else (case JSON_parse storedData of
                  Inl e \<Rightarrow> INITIAL_CLASS_ATTENDANCE_DATA
                | Inr parsedData \<Rightarrow> INITIAL_CLASS_ATTENDANCE_DATA ++ parsedData))"

definition initialState ::
  "(error + string option) \<Rightarrow> (string \<Rightarrow> error + ClassAttendanceData) \<Rightarrow> string \<Rightarrow> AppState" where
  "initialState getItem JSON_parse today =
     \<lparr>classAttendanceData = load getItem JSON_parse,
      selectedDate = today,
      editingDailyAttendance = Map.empty,
      isBulkEditing = False\<rparr>"

subsection \<open>Runs of the component\<close>

text \<open>One constructor per handler; a run applies the handlers of a list of events in turn.\<close>

datatype Event =
    PreviousDay
  | NextDay
  | UpdateDaily ClassGrade string int int
  | EditInputChange ClassGrade Field int
  | BulkEditClick
  | SaveAllClick
  | CancelBulkEditClick

fun handle :: "(int \<Rightarrow> string \<Rightarrow> string) \<Rightarrow> AppState \<Rightarrow> Event \<Rightarrow> AppState" where
  "handle shiftDate s PreviousDay = goToPreviousDay shiftDate s"
| "handle shiftDate s NextDay = goToNextDay shiftDate s"
| "handle shiftDate s (UpdateDaily g d p a) = handleUpdateDailyClassAttendance g d p a s"
| "handle shiftDate s (EditInputChange g f v) = handleEditInputChange g f v s"
| "handle shiftDate s BulkEditClick = handleBulkEditClick s"
| "handle shiftDate s SaveAllClick = handleSaveAllClick s"
| "handle shiftDate s CancelBulkEditClick = handleCancelBulkEditClick s"

definition run :: "(int \<Rightarrow> string \<Rightarrow> string) \<Rightarrow> AppState \<Rightarrow> Event list \<Rightarrow> AppState" where
  "run shiftDate s events = foldl (handle shiftDate) s events"

section \<open>Numbers and their text\<close>

text \<open>
  JavaScript numbers are IEEE 754 doubles.  A finite double is the rational it denotes;
  \<open>roundToDouble\<close> rounds a rational to the nearest value with a 53-bit significand, ties
  to the even significand.  The exponent range is not bounded: counts of magnitude
  \<open>2 ^ 1024\<close> and more, which JavaScript reads as an infinity, are outside the model, and
  so is the sign of zero.  A division by zero yields \<open>NaN\<close> or an infinity, as in JavaScript.
\<close>

datatype JsNumber = Finite rat | NaN | PosInfinity | NegInfinity

definition roundHalfEven :: "rat \<Rightarrow> int" where
  "roundHalfEven x =
     (let f = \<lfloor>x\<rfloor>; r = x - of_int f
      in if r < 1 / 2 then f else if 1 / 2 < r then f + 1 else if even f then f else f + 1)"

text \<open>\<open>binaryExponent x\<close> is the integer \<open>e\<close> with \<open>2 ^ e \<le> x < 2 ^ (e + 1)\<close>, for positive \<open>x\<close>.\<close>

definition binaryExponent :: "rat \<Rightarrow> int" where
  "binaryExponent x =
     (let k = bitlen (fst (quotient_of x)) - bitlen (snd (quotient_of x))
      in if power_int 2 k \<le> x then k else k - 1)"

definition roundToDouble :: "rat \<Rightarrow> rat" where
  "roundToDouble x =
     (if x = 0 then 0
      else let scale = power_int 2 (52 - binaryExponent \<bar>x\<bar>)
           in sgn x * of_int (roundHalfEven (\<bar>x\<bar> * scale)) / scale)"

definition jsDivide :: "int \<Rightarrow> int \<Rightarrow> JsNumber" where
  "jsDivide a b =
     (if b = 0 then (if a = 0 then NaN else if 0 < a then PosInfinity else NegInfinity)
      else Finite (roundToDouble (of_int a / of_int b)))"

definition jsTimes100 :: "JsNumber \<Rightarrow> JsNumber" where
  "jsTimes100 v = (case v of Finite x \<Rightarrow> Finite (roundToDouble (x * 100)) | other \<Rightarrow> other)"

text \<open>
  A count of the model is an integer.  The Number it stands for is the double nearest to it
  (the count itself, below \<open>2 ^ 53\<close> in magnitude); the nearest double of an integer is an
  integer again.  \<open>jsAdd\<close> is \<open>+\<close> on two counts: the sum, rounded to a double.
\<close>

definition toDouble :: "int \<Rightarrow> int" where
  "toDouble n = \<lfloor>roundToDouble (of_int n)\<rfloor>"

definition jsAdd :: "int \<Rightarrow> int \<Rightarrow> int" where
  "jsAdd a b = \<lfloor>roundToDouble (of_int (toDouble a) + of_int (toDouble b))\<rfloor>"

text \<open>Decimal digits of an integer that is not negative.\<close>

function decimalDigits :: "int \<Rightarrow> string" where
  "decimalDigits n =
     (if n < 10 then [''0123456789'' ! nat n]
      else decimalDigits (n div 10) @ [''0123456789'' ! nat (n mod 10)])"
  by pat_completeness auto
termination
  by (relation "measure nat") auto

declare decimalDigits.simps [simp del]

text \<open>
  \<open>Number.prototype.toString\<close> on the double \<open>v\<close> of a count that is not negative
  prints the decimal with the fewest significant digits that still reads back as \<open>v\<close>
  (the one nearest to \<open>v\<close> when there are several, the even one on a tie).  \<open>shortestDecimal v m\<close> looks for it among the
  multiples of \<open>10 ^ m\<close>, then of \<open>10 ^ (m - 1)\<close>, and so on: only the two multiples around
  \<open>v\<close> can read back as \<open>v\<close>.  Up to 21 digits the decimal is printed in full, beyond that
  in exponent notation.
\<close>

definition readsBackAs :: "int \<Rightarrow> int \<Rightarrow> bool" where
  "readsBackAs c v = (toDouble c = v)"

fun shortestDecimal :: "int \<Rightarrow> nat \<Rightarrow> int" where
  "shortestDecimal v 0 = v"
| "shortestDecimal v (Suc m) =
     (let unit = 10 ^ Suc m; lo = (v div unit) * unit; hi = lo + unit
      in if readsBackAs lo v \<and> readsBackAs hi v then
           (if v - lo < hi - v then lo
            else if hi - v < v - lo then hi
            else if even (v div unit) then lo else hi)
         else if readsBackAs lo v then lo
         else if readsBackAs hi v then hi
         else shortestDecimal v m)"

definition stripTrailingZeros :: "string \<Rightarrow> string" where
  "stripTrailingZeros s = rev (dropWhile (\<lambda>c. c = CHR ''0'') (rev s))"

definition magnitudeToString :: "int \<Rightarrow> string" where
  "magnitudeToString n =
     (let v = toDouble n;
          digits = decimalDigits (shortestDecimal v (length (decimalDigits v) - 1))
      in if length digits \<le> 21 then digits
         else (case stripTrailingZeros digits of
                 [] \<Rightarrow> []
               | first # rest \<Rightarrow> if rest = [] then [first] else first # ''.'' @ rest)
              @ ''e+'' @ decimalDigits (int (length digits) - 1))"

text \<open>The text of a count in a template literal and under \<open>toString()\<close>.\<close>

definition numberToString :: "int \<Rightarrow> string" where
  "numberToString n = (if n < 0 then ''-'' @ magnitudeToString (- n) else magnitudeToString n)"

text \<open>
  \<open>toFixed(1)\<close>: the sign, then, for a magnitude below \<open>10 ^ 21\<close>, the integer \<open>n\<close> nearest
  to ten times the magnitude (the larger one on a tie) written with a point before its last
  digit.  From \<open>10 ^ 21\<close> on the magnitude, an integer-valued double, is printed as
  \<open>toString\<close> prints it.
\<close>

definition toFixed1 :: "JsNumber \<Rightarrow> string" where
  "toFixed1 v =
     (case v of
        NaN \<Rightarrow> ''NaN''
      | PosInfinity \<Rightarrow> ''Infinity''
      | NegInfinity \<Rightarrow> ''-Infinity''
      | Finite x \<Rightarrow>
          (if x < 0 then ''-'' else [])
          @ (if 10 ^ 21 \<le> \<bar>x\<bar> then magnitudeToString \<lfloor>\<bar>x\<bar>\<rfloor>
             else (let n = \<lfloor>\<bar>x\<bar> * 10 + 1 / 2\<rfloor>
                   in decimalDigits (n div 10) @ ''.'' @ decimalDigits (n mod 10))))"

section \<open>The exporters (App.tsx)\<close>

text \<open>
  Both exporters compute the two percentages of a record by the same two lines:
  \<open>totalRecorded > 0 ? (count / totalRecorded) * 100 : 0\<close>.
\<close>

definition dailyPercentage :: "int \<Rightarrow> int \<Rightarrow> JsNumber" where
  "dailyPercentage n totalRecorded =
     (if totalRecorded > 0 then jsTimes100 (jsDivide n totalRecorded) else Finite 0)"

text \<open>The same expression with the guard taken away, to say what the guard prevents.\<close>

definition unguardedPercentage :: "int \<Rightarrow> int \<Rightarrow> JsNumber" where
  "unguardedPercentage n totalRecorded = jsTimes100 (jsDivide n totalRecorded)"

text \<open>
  The exporters read \<open>classAttendanceData[grade]?.[date]\<close> at every date that is a key of
  some grade's object.  Such a key need not be a date: the objects come from the stored
  snapshot.  Where the grade's object has no entry of its own under the key, the read
  goes on to \<open>Object.prototype\<close>, and under the name of one of its members it yields that
  member, a function or an object: a truthy value whose \<open>present\<close> and \<open>absent\<close> are
  undefined.
\<close>

definition objectPrototypeMembers :: "string list" where
  "objectPrototypeMembers =
     [''constructor'', ''hasOwnProperty'', ''isPrototypeOf'', ''propertyIsEnumerable'',
      ''toLocaleString'', ''toString'', ''valueOf'', ''__proto__'',
      ''__defineGetter__'', ''__defineSetter__'', ''__lookupGetter__'', ''__lookupSetter__'']"

datatype PropertyRead = NoProperty | OwnRecord DailyAttendanceRecord | InheritedMember

definition readDailyRecord :: "ClassAttendanceData \<Rightarrow> ClassGrade \<Rightarrow> string \<Rightarrow> PropertyRead" where
  "readDailyRecord data grade date =
     (case data grade of
        None \<Rightarrow> NoProperty
      | Some m \<Rightarrow>
          (case map_of m date of
             Some dailyRecord \<Rightarrow> OwnRecord dailyRecord
           | None \<Rightarrow> if date \<in> set objectPrototypeMembers then InheritedMember else NoProperty))"

text \<open>\<open>Set.prototype.add\<close> on a set kept in insertion order.\<close>

definition setAdd :: "'a list \<Rightarrow> 'a \<Rightarrow> 'a list" where
  "setAdd acc x = (if x \<in> set acc then acc else acc @ [x])"

text \<open>The set \<open>allDates\<close> that both exporters build from the keys of every grade's object.\<close>

definition allDates :: "ClassAttendanceData \<Rightarrow> string list" where
  "allDates data =
     foldl (\<lambda>acc grade.
              case data grade of
                None \<Rightarrow> acc
              | Some m \<Rightarrow> foldl setAdd acc (map fst m))
           [] CLASS_GRADES"

text \<open>\<open>Array.from(allDates).sort()\<close>: ascending in the order of the code units.\<close>

definition sortedDates :: "ClassAttendanceData \<Rightarrow> string list" where
  "sortedDates data = sort (allDates data)"

definition csvHeader :: string where
  "csvHeader = ''Date,Class Grade,Total Strength,Present,Absent,Present Percentage,Absent Percentage''"

definition dataUriPrefix :: string where
  "dataUriPrefix = ''data:text/csv;charset=utf-8,''"

definition newline :: string where
  "newline = [CHR 0x0A]"

text \<open>The template literal appended for one record.\<close>

definition csvLine :: "string \<Rightarrow> ClassGrade \<Rightarrow> DailyAttendanceRecord \<Rightarrow> string" where
  "csvLine date grade dailyRecord =
     (let totalRecorded = jsAdd (present dailyRecord) (absent dailyRecord);
          dailyPresentPercentage = dailyPercentage (toDouble (present dailyRecord)) totalRecorded;
          dailyAbsentPercentage = dailyPercentage (toDouble (absent dailyRecord)) totalRecorded
      in date @ '','' @ gradeLabel grade @ '','' @ numberToString (CLASS_STRENGTHS grade) @ '',''
         @ numberToString (present dailyRecord) @ '','' @ numberToString (absent dailyRecord) @ '',''
         @ toFixed1 dailyPresentPercentage @ ''%,'' @ toFixed1 dailyAbsentPercentage @ ''%''
         @ newline)"

text \<open>
  The same template literal when \<open>dailyRecord\<close> is an inherited member: \<open>present\<close> and
  \<open>absent\<close> are undefined and print as such, their sum is \<open>NaN\<close>, \<open>NaN > 0\<close> is false, and
  both percentages are the constant 0.
\<close>

definition csvLineInherited :: "string \<Rightarrow> ClassGrade \<Rightarrow> string" where
  "csvLineInherited date grade =
     date @ '','' @ gradeLabel grade @ '','' @ numberToString (CLASS_STRENGTHS grade) @ '',''
       @ ''undefined'' @ '','' @ ''undefined'' @ '',''
       @ toFixed1 (Finite 0) @ ''%,'' @ toFixed1 (Finite 0) @ ''%''
       @ newline"

text \<open>
  \<open>exportToCsv\<close>: the value of \<open>csvContent\<close> when the two nested \<open>forEach\<close> loops are done.
  It is a data URI; what follows \<open>dataUriPrefix\<close> is the text of the downloaded file.
\<close>

definition exportToCsv :: "ClassAttendanceData \<Rightarrow> string" where
  "exportToCsv data =
     foldl (\<lambda>csvContent date.
              foldl (\<lambda>csvContent grade.
                       case readDailyRecord data grade date of
                         NoProperty \<Rightarrow> csvContent
                       | OwnRecord dailyRecord \<Rightarrow> csvContent @ csvLine date grade dailyRecord
                       | InheritedMember \<Rightarrow> csvContent @ csvLineInherited date grade)
                    csvContent CLASS_GRADES)
           (dataUriPrefix @ csvHeader @ newline) (sortedDates data)"

text \<open>
  The reads for which the loops of \<open>exportToCsv\<close> append a line, in the order of the
  visit: date, grade, and the record read, \<open>None\<close> for an inherited member.
\<close>

definition csvRows ::
  "ClassAttendanceData \<Rightarrow> (string \<times> ClassGrade \<times> DailyAttendanceRecord option) list" where
  "csvRows data =
     concat (map (\<lambda>date.
                    concat (map (\<lambda>grade.
                                   case readDailyRecord data grade date of
                                     NoProperty \<Rightarrow> []
                                   | OwnRecord dailyRecord \<Rightarrow> [(date, grade, Some dailyRecord)]
                                   | InheritedMember \<Rightarrow> [(date, grade, None)])
                                CLASS_GRADES))
                 (sortedDates data))"

fun csvRowLine :: "string \<times> ClassGrade \<times> DailyAttendanceRecord option \<Rightarrow> string" where
  "csvRowLine (date, grade, Some dailyRecord) = csvLine date grade dailyRecord"
| "csvRowLine (date, grade, None) = csvLineInherited date grade"

text \<open>
  \<open>exportToPdf\<close>.  \<open>pdfRowData\<close> is the array \<open>rowData\<close> of one table row.  For an
  inherited member, \<open>dailyRecord.present.toString()\<close> is a call on undefined: a
  \<open>TypeError\<close> leaves both loops and the exporter before \<open>doc.save\<close>, so no document is
  produced.  Otherwise the result is the list of the dates with the rows drawn under each;
  the coordinates, colours and page breaks of the drawing are not modelled.
\<close>

definition pdfRowData :: "ClassGrade \<Rightarrow> DailyAttendanceRecord \<Rightarrow> string list" where
  "pdfRowData grade dailyRecord =
     (let totalRecorded = jsAdd (present dailyRecord) (absent dailyRecord);
          dailyPresentPercentage = dailyPercentage (toDouble (present dailyRecord)) totalRecorded;
          dailyAbsentPercentage = dailyPercentage (toDouble (absent dailyRecord)) totalRecorded
      in [gradeLabel grade,
          numberToString (CLASS_STRENGTHS grade),
          numberToString (present dailyRecord),
          numberToString (absent dailyRecord),
          toFixed1 dailyPresentPercentage @ ''%'',
          toFixed1 dailyAbsentPercentage @ ''%''])"

definition pdfDateRows :: "ClassAttendanceData \<Rightarrow> string \<Rightarrow> error + string list list" where
  "pdfDateRows data date =
     foldl (\<lambda>drawn grade.
              case drawn of
                Inl e \<Rightarrow> Inl e
              | Inr rows \<Rightarrow>
                  (case readDailyRecord data grade date of
                     NoProperty \<Rightarrow> Inr rows
                   | OwnRecord dailyRecord \<Rightarrow> Inr (rows @ [pdfRowData grade dailyRecord])
                   | InheritedMember \<Rightarrow> Inl TypeError))
           (Inr []) CLASS_GRADES"

definition exportToPdf :: "ClassAttendanceData \<Rightarrow> error + (string \<times> string list list) list" where
  "exportToPdf data =
     foldl (\<lambda>doc date.
              case doc of
                Inl e \<Rightarrow> Inl e
              | Inr tables \<Rightarrow>
                  (case pdfDateRows data date of
                     Inl e \<Rightarrow> Inl e
                   | Inr rows \<Rightarrow> Inr (tables @ [(date, rows)])))
           (Inr []) (sortedDates data)"

text \<open>The position of a grade in \<open>CLASS_GRADES\<close>.\<close>

fun gradeIndex :: "ClassGrade \<Rightarrow> nat" where
  "gradeIndex SIXTH = 0"
| "gradeIndex SEVENTH = 1"
| "gradeIndex EIGHTH = 2"
| "gradeIndex NINTH = 3"
| "gradeIndex TENTH = 4"

text \<open>
  The order in which the rows are to appear: by date, and on one date by the position of the
  grade in \<open>CLASS_GRADES\<close>.
\<close>

definition rowBefore ::
  "string \<times> ClassGrade \<times> 'a \<Rightarrow> string \<times> ClassGrade \<times> 'a \<Rightarrow> bool" where
  "rowBefore x y =
     (fst x < fst y \<or> (fst x = fst y \<and> gradeIndex (fst (snd x)) < gradeIndex (fst (snd y))))"

text \<open>
  The components offered by the rendered page, by state: the two day buttons always; the
  bulk-edit button outside bulk mode; the save and cancel buttons and the number inputs in
  bulk mode only (\<open>isEditingRow = isBulkEditing\<close>).  No element calls
  \<open>handleUpdateDailyClassAttendance\<close> itself.
\<close>

fun offered :: "AppState \<Rightarrow> Event \<Rightarrow> bool" where
  "offered s PreviousDay = True"
| "offered s NextDay = True"
| "offered s (UpdateDaily g d p a) = False"
| "offered s (EditInputChange g f v) = isBulkEditing s"
| "offered s BulkEditClick = (\<not> isBulkEditing s)"
| "offered s SaveAllClick = isBulkEditing s"
| "offered s CancelBulkEditClick = isBulkEditing s"

text \<open>
  A run through the page: every event must be offered in the state it meets; \<open>None\<close> when
  one is not.
\<close>

fun pageRun :: "(int \<Rightarrow> string \<Rightarrow> string) \<Rightarrow> AppState \<Rightarrow> Event list \<Rightarrow> AppState option" where
  "pageRun shiftDate s [] = Some s"
| "pageRun shiftDate s (e # events) =
     (if offered s e then pageRun shiftDate (handle shiftDate s e) events else None)"

text \<open>
  The grades edited in the edit session that is open at the end of a list of events: a field
  edit adds its grade, any other event begins or ends a session.
\<close>

fun touchedAfter :: "ClassGrade list \<Rightarrow> Event \<Rightarrow> ClassGrade list" where
  "touchedAfter touched (EditInputChange g f v) = g # touched"
| "touchedAfter touched e = []"

definition touchedGrades :: "Event list \<Rightarrow> ClassGrade list" where
  "touchedGrades events = foldl touchedAfter [] events"

section \<open>Sequences of field edits\<close>

text \<open>
  A user editing the fields of one grade produces a list of (field, value) pairs, one call of
  \<open>handleEditInputChange\<close> each.  \<open>editedValue\<close> is what the field shows when the list is
  done: the last value entered for it, or the old value when the field was never edited.
\<close>

definition editFields :: "ClassGrade \<Rightarrow> (Field \<times> int) list \<Rightarrow> AppState \<Rightarrow> AppState" where
  "editFields grade edits s = foldl (\<lambda>st (field, v). handleEditInputChange grade field v st) s edits"

text \<open>A list of field edits on any grades, in the order of the calls.\<close>

definition editSession :: "(ClassGrade \<times> Field \<times> int) list \<Rightarrow> AppState \<Rightarrow> AppState" where
  "editSession edits s =
     foldl (\<lambda>st (grade, field, v). handleEditInputChange grade field v st) s edits"

definition editedValue :: "Field \<Rightarrow> (Field \<times> int) list \<Rightarrow> int \<Rightarrow> int" where
  "editedValue field edits old = (case map_of (rev edits) field of None \<Rightarrow> old | Some v \<Rightarrow> v)"

definition recordAfterEdits :: "(Field \<times> int) list \<Rightarrow> DailyAttendanceRecord \<Rightarrow> DailyAttendanceRecord" where
  "recordAfterEdits edits old =
     \<lparr>present = editedValue Present edits (present old),
      absent = editedValue Absent edits (absent old)\<rparr>"

section \<open>Example states\<close>

text \<open>
  The store of the export scenario, \<open>{SIXTH: {"2024-06-01": {present: 15, absent: 4}}}\<close>,
  the state of the component after loading it with that date selected, and a store with
  records entered on three dates out of order.
\<close>

definition scenarioStore :: ClassAttendanceData where
  "scenarioStore = [SIXTH \<mapsto> [(''2024-06-01'', \<lparr>present = 15, absent = 4\<rparr>)]]"

definition scenarioState :: AppState where
  "scenarioState =
     initialState (Inr (Some ''snapshot'')) (\<lambda>text. Inr scenarioStore) ''2024-06-01''"



definition plainDateKeys :: "ClassAttendanceData \<Rightarrow> bool" where
  "plainDateKeys data = (\<forall>date \<in> set (allDates data). date \<notin> set objectPrototypeMembers)"

definition threeDatesStore :: ClassAttendanceData where
  "threeDatesStore =
     [SEVENTH \<mapsto> [(''2024-01-03'', \<lparr>present = 40, absent = 8\<rparr>),
                  (''2024-01-01'', \<lparr>present = 45, absent = 3\<rparr>)],
      SIXTH \<mapsto> [(''2024-01-02'', \<lparr>present = 19, absent = 0\<rparr>),
                (''2024-01-01'', \<lparr>present = 0, absent = 0\<rparr>)]]"

section \<open>Commit isolation\<close>

lemma recordAt_update_same:
  "recordAt (updateClassAttendanceData g d p a data) g d = Some \<lparr>present = p, absent = a\<rparr>"
  by (simp add: recordAt_def updateClassAttendanceData_def update_conv)

lemma recordAt_update_other_date:
  "d' \<noteq> d \<Longrightarrow> recordAt (updateClassAttendanceData g d p a data) g d' = recordAt data g d'"
  by (simp add: recordAt_def updateClassAttendanceData_def update_conv spreadDates_def
      split: option.splits)

lemma update_other_grade:
  "g' \<noteq> g \<Longrightarrow> updateClassAttendanceData g d p a data g' = data g'"
  by (simp add: updateClassAttendanceData_def)

lemma recordAt_update_other_grade:
  "g' \<noteq> g \<Longrightarrow> recordAt (updateClassAttendanceData g d p a data) g' d' = recordAt data g' d'"
  by (simp add: recordAt_def update_other_grade)

lemma recordAt_update:
  "recordAt (updateClassAttendanceData g d p a data) g' d' =
     (if g' = g \<and> d' = d then Some \<lparr>present = p, absent = a\<rparr> else recordAt data g' d')"
  using recordAt_update_same recordAt_update_other_date recordAt_update_other_grade
  by (cases "g' = g"; cases "d' = d") simp_all

text \<open>
  C1.  For every attendance structure, grade \<open>g\<close>, date \<open>d\<close> and counts \<open>p\<close>, \<open>a\<close>, the
  commit operation \<open>handleUpdateDailyClassAttendance\<close> yields a structure whose \<open>(g, d)\<close>
  entry is \<open>{present: p, absent: a}\<close>, and every other (grade, date) entry reads as it did
  in the prior structure; the date maps of all other grades are the prior ones.
\<close>

theorem C1_commit_isolation:
  "recordAt (classAttendanceData (handleUpdateDailyClassAttendance g d p a s)) g d
     = Some \<lparr>present = p, absent = a\<rparr>
   \<and> (\<forall>g' d'. (g', d') \<noteq> (g, d) \<longrightarrow>
        recordAt (classAttendanceData (handleUpdateDailyClassAttendance g d p a s)) g' d'
          = recordAt (classAttendanceData s) g' d')
   \<and> (\<forall>g'. g' \<noteq> g \<longrightarrow>
        classAttendanceData (handleUpdateDailyClassAttendance g d p a s) g'
          = classAttendanceData s g')"
  by (simp add: handleUpdateDailyClassAttendance_def recordAt_update update_other_grade)

theorem C1_commit_isolation_witness:
  "(SEVENTH, ''2024-06-01'') \<noteq> (SIXTH, ''2024-06-01'')
   \<and> recordAt (classAttendanceData
          (handleUpdateDailyClassAttendance SEVENTH ''2024-06-01'' 40 8 scenarioState))
        SEVENTH ''2024-06-01'' = Some \<lparr>present = 40, absent = 8\<rparr>
   \<and> recordAt (classAttendanceData
          (handleUpdateDailyClassAttendance SEVENTH ''2024-06-01'' 40 8 scenarioState))
        SIXTH ''2024-06-01'' = Some \<lparr>present = 15, absent = 4\<rparr>"
  using C1_commit_isolation [of SEVENTH "''2024-06-01''" 40 8 scenarioState]
  by (simp add: scenarioState_def initialState_def load_def scenarioStore_def recordAt_def
      INITIAL_CLASS_ATTENDANCE_DATA_def CLASS_GRADES_def)

section \<open>The handlers, one by one\<close>

lemma set_CLASS_GRADES: "set CLASS_GRADES = UNIV"
proof -
  have "g \<in> set CLASS_GRADES" for g
    by (cases g) (simp_all add: CLASS_GRADES_def)
  then show ?thesis by auto
qed

lemma distinct_CLASS_GRADES: "distinct CLASS_GRADES"
  by (simp add: CLASS_GRADES_def)

lemma bulk_buffer:
  "editingDailyAttendance (handleBulkEditClick s) g
     = Some (recordOrZero (classAttendanceData s) g (selectedDate s))"
  by (cases g) (simp_all add: handleBulkEditClick_def CLASS_GRADES_def)

lemma bulk_frame:
  "classAttendanceData (handleBulkEditClick s) = classAttendanceData s"
  "selectedDate (handleBulkEditClick s) = selectedDate s"
  "isBulkEditing (handleBulkEditClick s)"
  by (simp_all add: handleBulkEditClick_def)

lemma edit_buffer:
  "editingDailyAttendance (handleEditInputChange g f v s) g' =
     (if g' = g
      then Some (setField f v (case editingDailyAttendance s g of None \<Rightarrow> zeroRecord | Some r \<Rightarrow> r))
      else editingDailyAttendance s g')"
  by (simp add: handleEditInputChange_def Let_def)

lemma edit_frame:
  "classAttendanceData (handleEditInputChange g f v s) = classAttendanceData s"
  "selectedDate (handleEditInputChange g f v s) = selectedDate s"
  "isBulkEditing (handleEditInputChange g f v s) = isBulkEditing s"
  by (simp_all add: handleEditInputChange_def Let_def)

lemma saveAll_fold:
  "recordAt (classAttendanceData
       (foldl (\<lambda>st grade. case buf grade of None \<Rightarrow> st
                 | Some editedRecord \<Rightarrow>
                     handleUpdateDailyClassAttendance grade d
                       (present editedRecord) (absent editedRecord) st) st gs)) g' d'
   = (if g' \<in> set gs \<and> d' = d \<and> buf g' \<noteq> None then buf g'
      else recordAt (classAttendanceData st) g' d')"
proof (induction gs arbitrary: st)
  case Nil
  then show ?case by simp
next
  case (Cons g gs)
  show ?case
    by (cases "buf g")
       (auto simp: Cons.IH handleUpdateDailyClassAttendance_def recordAt_update)
qed

lemma saveAll_recordAt:
  "recordAt (classAttendanceData (handleSaveAllClick s)) g d =
     (if d = selectedDate s \<and> editingDailyAttendance s g \<noteq> None then editingDailyAttendance s g
      else recordAt (classAttendanceData s) g d)"
  by (simp add: handleSaveAllClick_def saveAll_fold set_CLASS_GRADES)

lemma saveAll_frame:
  "editingDailyAttendance (handleSaveAllClick s) = Map.empty"
  "\<not> isBulkEditing (handleSaveAllClick s)"
  by (simp_all add: handleSaveAllClick_def)

text \<open>
  C2.  The claim: the values stored by a committed edit lie between 0 and the strength of
  the grade.  No handler clamps: on the scenario state, after entering bulk mode and the
  edits 999 (present) and -5 (absent) for the sixth grade, whose strength is 19, "save all"
  stores both values as they were entered.
\<close>

theorem C2_unclamped_edit_is_committed:
  "recordAt (classAttendanceData
      (handleSaveAllClick
        (handleEditInputChange SIXTH Absent (- 5)
          (handleEditInputChange SIXTH Present 999 (handleBulkEditClick scenarioState)))))
     SIXTH ''2024-06-01'' = Some \<lparr>present = 999, absent = - 5\<rparr>
   \<and> \<not> 999 \<le> CLASS_STRENGTHS SIXTH \<and> \<not> (0::int) \<le> - 5"
  by (simp add: saveAll_recordAt edit_buffer edit_frame bulk_buffer bulk_frame
      scenarioState_def initialState_def)

section \<open>Edit sessions\<close>

lemma recordAfterEdits_Nil: "recordAfterEdits [] r = r"
  by (simp add: recordAfterEdits_def editedValue_def)

lemma recordAfterEdits_snoc:
  "recordAfterEdits (edits @ [(f, v)]) r = setField f v (recordAfterEdits edits r)"
  by (cases f) (simp_all add: recordAfterEdits_def editedValue_def)

lemma editFields_frame:
  "classAttendanceData (editFields g edits s) = classAttendanceData s"
  "selectedDate (editFields g edits s) = selectedDate s"
  "isBulkEditing (editFields g edits s) = isBulkEditing s"
  by (induction edits rule: rev_induct) (simp_all add: editFields_def edit_frame split: prod.splits)

lemma editFields_other:
  "g' \<noteq> g \<Longrightarrow> editingDailyAttendance (editFields g edits s) g' = editingDailyAttendance s g'"
  by (induction edits rule: rev_induct) (simp_all add: editFields_def edit_buffer split: prod.splits)

lemma editFields_same:
  "editingDailyAttendance s g = Some r \<Longrightarrow>
   editingDailyAttendance (editFields g edits s) g = Some (recordAfterEdits edits r)"
proof (induction edits rule: rev_induct)
  case Nil
  then show ?case by (simp add: editFields_def recordAfterEdits_Nil)
next
  case (snoc e edits)
  obtain f v where e: "e = (f, v)" by (cases e)
  have "editingDailyAttendance (editFields g (edits @ [e]) s) g
          = editingDailyAttendance (handleEditInputChange g f v (editFields g edits s)) g"
    by (simp add: editFields_def e)
  also have "\<dots> = Some (setField f v (recordAfterEdits edits r))"
    using snoc by (simp add: edit_buffer)
  finally show ?case by (simp add: e recordAfterEdits_snoc)
qed

lemma editSession_frame:
  "classAttendanceData (editSession edits s) = classAttendanceData s"
  "selectedDate (editSession edits s) = selectedDate s"
  "isBulkEditing (editSession edits s) = isBulkEditing s"
  by (induction edits rule: rev_induct) (simp_all add: editSession_def edit_frame split: prod.splits)

lemma editSession_untouched:
  "g \<notin> fst ` set edits \<Longrightarrow>
   editingDailyAttendance (editSession edits s) g = editingDailyAttendance s g"
  by (induction edits rule: rev_induct)
     (auto simp: editSession_def edit_buffer split: prod.splits)

text \<open>
  C3.  For every state (store, selected date), entering bulk edit, editing fields of exactly
  one grade \<open>A\<close> (any list of field edits) and then "save all" sets the entry of \<open>A\<close> on the
  selected date to the edited values (the last value entered for a field, the store's value
  for a field left alone), and leaves the values of every other grade on the selected date
  as they were: the entry is then the record the store showed before, the zero record where
  the store had none.  Entries on other dates are untouched.
\<close>

theorem C3_bulk_save_one_grade:
  "recordAt (classAttendanceData (handleSaveAllClick (editFields A edits (handleBulkEditClick s))))
       A (selectedDate s)
     = Some (recordAfterEdits edits (recordOrZero (classAttendanceData s) A (selectedDate s)))
   \<and> (\<forall>g. g \<noteq> A \<longrightarrow>
         recordAt (classAttendanceData (handleSaveAllClick (editFields A edits (handleBulkEditClick s))))
             g (selectedDate s)
           = Some (recordOrZero (classAttendanceData s) g (selectedDate s))
         \<and> recordOrZero (classAttendanceData (handleSaveAllClick (editFields A edits (handleBulkEditClick s))))
             g (selectedDate s)
           = recordOrZero (classAttendanceData s) g (selectedDate s))
   \<and> (\<forall>g d. d \<noteq> selectedDate s \<longrightarrow>
         recordAt (classAttendanceData (handleSaveAllClick (editFields A edits (handleBulkEditClick s)))) g d
           = recordAt (classAttendanceData s) g d)"
proof -
  let ?s2 = "editFields A edits (handleBulkEditClick s)"
  have sel: "selectedDate ?s2 = selectedDate s"
    and store: "classAttendanceData ?s2 = classAttendanceData s"
    by (simp_all add: editFields_frame bulk_frame)
  have bufA: "editingDailyAttendance ?s2 A
       = Some (recordAfterEdits edits (recordOrZero (classAttendanceData s) A (selectedDate s)))"
    by (rule editFields_same) (rule bulk_buffer)
  have bufO: "editingDailyAttendance ?s2 g
       = Some (recordOrZero (classAttendanceData s) g (selectedDate s))" if "g \<noteq> A" for g
    using that by (simp add: editFields_other bulk_buffer)
  have 1: "recordAt (classAttendanceData (handleSaveAllClick ?s2)) A (selectedDate s)
     = Some (recordAfterEdits edits (recordOrZero (classAttendanceData s) A (selectedDate s)))"
    by (simp add: saveAll_recordAt sel bufA)
  have 2: "recordAt (classAttendanceData (handleSaveAllClick ?s2)) g (selectedDate s)
           = Some (recordOrZero (classAttendanceData s) g (selectedDate s))" if "g \<noteq> A" for g
    using that by (simp add: saveAll_recordAt sel bufO)
  have 3: "recordAt (classAttendanceData (handleSaveAllClick ?s2)) g d
           = recordAt (classAttendanceData s) g d" if "d \<noteq> selectedDate s" for g d
    using that by (simp add: saveAll_recordAt sel store)
  show ?thesis
    using 1 2 3 by (simp add: recordOrZero_def)
qed

theorem C3_bulk_save_one_grade_witness:
  "SIXTH \<noteq> SEVENTH \<and> EIGHTH \<noteq> SEVENTH
   \<and> recordAt (classAttendanceData (handleSaveAllClick
        (editFields SEVENTH [(Present, 40), (Absent, 8), (Present, 41)]
           (handleBulkEditClick scenarioState)))) SEVENTH ''2024-06-01''
       = Some \<lparr>present = 41, absent = 8\<rparr>
   \<and> recordAt (classAttendanceData (handleSaveAllClick
        (editFields SEVENTH [(Present, 40), (Absent, 8), (Present, 41)]
           (handleBulkEditClick scenarioState)))) SIXTH ''2024-06-01''
       = Some \<lparr>present = 15, absent = 4\<rparr>
   \<and> recordAt (classAttendanceData (handleSaveAllClick
        (editFields SEVENTH [(Present, 40), (Absent, 8), (Present, 41)]
           (handleBulkEditClick scenarioState)))) EIGHTH ''2024-06-01''
       = Some \<lparr>present = 0, absent = 0\<rparr>"
  using C3_bulk_save_one_grade [of SEVENTH "[(Present, 40), (Absent, 8), (Present, 41)]" scenarioState]
  by (simp add: scenarioState_def initialState_def load_def scenarioStore_def recordAt_def
      recordOrZero_def zeroRecord_def recordAfterEdits_def editedValue_def
      INITIAL_CLASS_ATTENDANCE_DATA_def CLASS_GRADES_def)

lemma pageRun_snoc:
  "pageRun shiftDate s (events @ [e]) =
     (case pageRun shiftDate s events of
        None \<Rightarrow> None
      | Some s' \<Rightarrow> if offered s' e then Some (handle shiftDate s' e) else None)"
  by (induction events arbitrary: s) simp_all

lemma touchedGrades_snoc:
  "touchedGrades (events @ [e]) = touchedAfter (touchedGrades events) e"
  by (simp add: touchedGrades_def)

lemma untouched_keep_store_value:
  "pageRun shiftDate s0 events = Some s \<Longrightarrow> \<not> isBulkEditing s0 \<Longrightarrow> isBulkEditing s \<Longrightarrow>
   g \<notin> set (touchedGrades events) \<Longrightarrow>
   editingDailyAttendance s g = Some (recordOrZero (classAttendanceData s) g (selectedDate s))"
proof (induction events arbitrary: s g rule: rev_induct)
  case Nil
  then show ?case by simp
next
  case (snoc e events)
  from snoc.prems(1) obtain s' where
    run: "pageRun shiftDate s0 events = Some s'" and off: "offered s' e"
    and s: "s = handle shiftDate s' e"
    by (auto simp: pageRun_snoc split: option.splits if_splits)
  show ?case
  proof (cases e)
    case PreviousDay
    with snoc.prems(3) s show ?thesis by (simp add: goToPreviousDay_def)
  next
    case NextDay
    with snoc.prems(3) s show ?thesis by (simp add: goToNextDay_def)
  next
    case (UpdateDaily g' d p a)
    with off show ?thesis by simp
  next
    case (EditInputChange g' f v)
    have bulk: "isBulkEditing s'"
      using off EditInputChange by simp
    have ne: "g \<noteq> g'" and old: "g \<notin> set (touchedGrades events)"
      using snoc.prems(4) by (simp_all add: touchedGrades_snoc EditInputChange)
    have "editingDailyAttendance s' g
            = Some (recordOrZero (classAttendanceData s') g (selectedDate s'))"
      by (rule snoc.IH [OF run snoc.prems(2) bulk old])
    then show ?thesis
      using ne by (simp add: s EditInputChange edit_buffer edit_frame)
  next
    case BulkEditClick
    then show ?thesis by (simp add: s bulk_buffer bulk_frame)
  next
    case SaveAllClick
    with snoc.prems(3) s show ?thesis by (simp add: saveAll_frame)
  next
    case CancelBulkEditClick
    with snoc.prems(3) s show ?thesis by (simp add: handleCancelBulkEditClick_def)
  qed
qed

text \<open>
  C4.  In every state the page can reach from the initial state (the number inputs are
  rendered in bulk mode only, and entering bulk mode seeds a pair for every grade), the
  first field edit that touches a grade in the open edit session replaces only the edited
  field: the grade's buffered pair becomes the store's current record on the selected date
  with that one field set, the zero record standing in where the store has none.  The
  pairs of the other grades and the store are unchanged.
\<close>

theorem C4_first_edit_keeps_store_value:
  assumes "pageRun shiftDate (initialState getItem JSON_parse today) events = Some s"
    and "offered s (EditInputChange g field v)"
    and "g \<notin> set (touchedGrades events)"
  shows "editingDailyAttendance (handleEditInputChange g field v s) g
           = Some (setField field v (recordOrZero (classAttendanceData s) g (selectedDate s)))
         \<and> (field = Present \<longrightarrow>
              editingDailyAttendance (handleEditInputChange g field v s) g
                = Some \<lparr>present = v,
                        absent = absent (recordOrZero (classAttendanceData s) g (selectedDate s))\<rparr>)
         \<and> (field = Absent \<longrightarrow>
              editingDailyAttendance (handleEditInputChange g field v s) g
                = Some \<lparr>present = present (recordOrZero (classAttendanceData s) g (selectedDate s)),
                        absent = v\<rparr>)
         \<and> (recordAt (classAttendanceData s) g (selectedDate s) = None \<longrightarrow>
              editingDailyAttendance (handleEditInputChange g field v s) g
                = Some (setField field v \<lparr>present = 0, absent = 0\<rparr>))
         \<and> (\<forall>g'. g' \<noteq> g \<longrightarrow>
              editingDailyAttendance (handleEditInputChange g field v s) g'
                = editingDailyAttendance s g')
         \<and> classAttendanceData (handleEditInputChange g field v s) = classAttendanceData s"
proof -
  have bulk: "isBulkEditing s"
    using assms(2) by simp
  have "editingDailyAttendance s g
          = Some (recordOrZero (classAttendanceData s) g (selectedDate s))"
    by (rule untouched_keep_store_value [OF assms(1) _ bulk assms(3)])
       (simp add: initialState_def)
  then have first: "editingDailyAttendance (handleEditInputChange g field v s) g
           = Some (setField field v (recordOrZero (classAttendanceData s) g (selectedDate s)))"
    by (simp add: edit_buffer)
  show ?thesis
    unfolding first
    by (cases field) (simp_all add: edit_buffer edit_frame recordOrZero_def zeroRecord_def)
qed

theorem C4_first_edit_keeps_store_value_witness:
  "pageRun (\<lambda>n d. d) (initialState (Inr (Some ''snapshot'')) (\<lambda>text. Inr scenarioStore) ''2024-06-01'')
       [BulkEditClick, EditInputChange SEVENTH Present 40]
     = Some (handleEditInputChange SEVENTH Present 40 (handleBulkEditClick scenarioState))
   \<and> offered (handleEditInputChange SEVENTH Present 40 (handleBulkEditClick scenarioState))
        (EditInputChange SIXTH Present 10)
   \<and> SIXTH \<notin> set (touchedGrades [BulkEditClick, EditInputChange SEVENTH Present 40])
   \<and> recordOrZero (classAttendanceData scenarioState) SIXTH ''2024-06-01''
        = \<lparr>present = 15, absent = 4\<rparr>
   \<and> editingDailyAttendance
        (handleEditInputChange SIXTH Present 10
          (handleEditInputChange SEVENTH Present 40 (handleBulkEditClick scenarioState))) SIXTH
       = Some \<lparr>present = 10, absent = 4\<rparr>"
proof -
  have run: "pageRun (\<lambda>n d. d)
        (initialState (Inr (Some ''snapshot'')) (\<lambda>text. Inr scenarioStore) ''2024-06-01'')
        [BulkEditClick, EditInputChange SEVENTH Present 40]
      = Some (handleEditInputChange SEVENTH Present 40 (handleBulkEditClick scenarioState))"
    by (simp add: scenarioState_def initialState_def bulk_frame)
  have off: "offered (handleEditInputChange SEVENTH Present 40 (handleBulkEditClick scenarioState))
        (EditInputChange SIXTH Present 10)"
    by (simp add: edit_frame bulk_frame)
  have untouched: "SIXTH \<notin> set (touchedGrades [BulkEditClick, EditInputChange SEVENTH Present 40])"
    by (simp add: touchedGrades_def)
  have store: "recordOrZero (classAttendanceData scenarioState) SIXTH ''2024-06-01''
        = \<lparr>present = 15, absent = 4\<rparr>"
    by (simp add: scenarioState_def initialState_def load_def scenarioStore_def recordAt_def
        recordOrZero_def INITIAL_CLASS_ATTENDANCE_DATA_def CLASS_GRADES_def)
  show ?thesis
    using C4_first_edit_keeps_store_value [OF run off untouched] run off untouched store
    by (simp add: edit_frame bulk_frame scenarioState_def initialState_def)
qed

text \<open>
  C9.  In every state, whatever the edit buffer holds and whether or not bulk mode is on,
  going to the next or to the previous day leaves the store as it is, empties the edit
  buffer and leaves bulk mode.  In particular, after any field edits for a grade \<open>G\<close>, in a
  single-row or in a bulk session, the entry of \<open>G\<close> on the original date is the one the
  store held before.
\<close>

theorem C9_navigation_discards_edits:
  "classAttendanceData (goToNextDay shiftDate s) = classAttendanceData s
   \<and> editingDailyAttendance (goToNextDay shiftDate s) = Map.empty
   \<and> \<not> isBulkEditing (goToNextDay shiftDate s)
   \<and> classAttendanceData (goToPreviousDay shiftDate s) = classAttendanceData s
   \<and> editingDailyAttendance (goToPreviousDay shiftDate s) = Map.empty
   \<and> \<not> isBulkEditing (goToPreviousDay shiftDate s)
   \<and> recordAt (classAttendanceData (goToNextDay shiftDate (editFields G edits s))) G (selectedDate s)
       = recordAt (classAttendanceData s) G (selectedDate s)
   \<and> recordAt (classAttendanceData (goToPreviousDay shiftDate (editFields G edits s))) G (selectedDate s)
       = recordAt (classAttendanceData s) G (selectedDate s)
   \<and> recordAt (classAttendanceData
                  (goToNextDay shiftDate (editFields G edits (handleBulkEditClick s)))) G (selectedDate s)
       = recordAt (classAttendanceData s) G (selectedDate s)
   \<and> recordAt (classAttendanceData
                  (goToPreviousDay shiftDate (editFields G edits (handleBulkEditClick s)))) G (selectedDate s)
       = recordAt (classAttendanceData s) G (selectedDate s)"
  by (simp add: goToNextDay_def goToPreviousDay_def editFields_frame bulk_frame)

section \<open>The rows of the exporters\<close>

lemma set_foldl_setAdd: "set (foldl setAdd acc xs) = set acc \<union> set xs"
  by (induction xs arbitrary: acc) (auto simp: setAdd_def)

lemma distinct_foldl_setAdd: "distinct acc \<Longrightarrow> distinct (foldl setAdd acc xs)"
  by (induction xs arbitrary: acc) (auto simp: setAdd_def)

lemma set_allDates_fold:
  "set (foldl (\<lambda>acc grade. case data grade of None \<Rightarrow> acc
                 | Some m \<Rightarrow> foldl setAdd acc (map fst m)) acc gs)
   = set acc \<union> {d. \<exists>g m. g \<in> set gs \<and> data g = Some m \<and> d \<in> fst ` set m}"
proof (induction gs arbitrary: acc)
  case Nil
  then show ?case by simp
next
  case (Cons g gs)
  show ?case
    by (cases "data g") (auto simp: Cons.IH set_foldl_setAdd)
qed

lemma distinct_allDates_fold:
  "distinct acc \<Longrightarrow>
   distinct (foldl (\<lambda>acc grade. case data grade of None \<Rightarrow> acc
                 | Some m \<Rightarrow> foldl setAdd acc (map fst m)) acc gs)"
proof (induction gs arbitrary: acc)
  case Nil
  then show ?case by simp
next
  case (Cons g gs)
  then show ?case
    by (cases "data g") (simp_all add: distinct_foldl_setAdd)
qed

lemma set_allDates:
  "set (allDates data) = {d. \<exists>g m. data g = Some m \<and> d \<in> fst ` set m}"
  by (simp add: allDates_def set_allDates_fold set_CLASS_GRADES)

lemma distinct_allDates: "distinct (allDates data)"
  by (simp add: allDates_def distinct_allDates_fold)

lemma recordAt_in_allDates: "recordAt data g d = Some r \<Longrightarrow> d \<in> set (allDates data)"
  by (auto simp: recordAt_def set_allDates split: option.splits dest!: map_of_SomeD intro!: exI image_eqI[where x="(d, r)"])

lemma sortedDates_props:
  "sorted (sortedDates data)" "distinct (sortedDates data)"
  "set (sortedDates data) = set (allDates data)"
  by (simp_all add: sortedDates_def distinct_allDates)

lemma read_own: "recordAt data g d = Some r \<Longrightarrow> readDailyRecord data g d = OwnRecord r"
  by (auto simp: recordAt_def readDailyRecord_def split: option.splits)

lemma read_OwnRecord_iff: "readDailyRecord data g d = OwnRecord r \<longleftrightarrow> recordAt data g d = Some r"
  by (auto simp: recordAt_def readDailyRecord_def split: option.splits)

lemma read_plain:
  "d \<notin> set objectPrototypeMembers \<Longrightarrow>
   readDailyRecord data g d
     = (case recordAt data g d of None \<Rightarrow> NoProperty | Some r \<Rightarrow> OwnRecord r)"
  by (auto simp: recordAt_def readDailyRecord_def split: option.splits)

lemma read_inherited_iff:
  "readDailyRecord data g d = InheritedMember
     \<longleftrightarrow> data g \<noteq> None \<and> recordAt data g d = None \<and> d \<in> set objectPrototypeMembers"
  by (auto simp: recordAt_def readDailyRecord_def split: option.splits)

lemma foldl_append_reads:
  "foldl (\<lambda>csv x. case f x of NoProperty \<Rightarrow> csv | OwnRecord r \<Rightarrow> csv @ line x r
                     | InheritedMember \<Rightarrow> csv @ other x) csv xs
   = csv @ concat (map (\<lambda>x. case f x of NoProperty \<Rightarrow> [] | OwnRecord r \<Rightarrow> line x r
                                | InheritedMember \<Rightarrow> other x) xs)"
  by (induction xs arbitrary: csv) (auto split: PropertyRead.splits)

lemma foldl_append_blocks:
  "foldl (\<lambda>csv x. csv @ block x) csv xs = csv @ concat (map block xs)"
  by (induction xs arbitrary: csv) auto

lemma exportToCsv_rows:
  "exportToCsv data = dataUriPrefix @ csvHeader @ newline @ concat (map csvRowLine (csvRows data))"
proof -
  have inner: "concat (map csvRowLine
                 (concat (map (\<lambda>grade. case readDailyRecord data grade date of NoProperty \<Rightarrow> []
                     | OwnRecord r \<Rightarrow> [(date, grade, Some r)]
                     | InheritedMember \<Rightarrow> [(date, grade, None)]) gs)))
        = concat (map (\<lambda>grade. case readDailyRecord data grade date of NoProperty \<Rightarrow> []
                     | OwnRecord r \<Rightarrow> csvLine date grade r
                     | InheritedMember \<Rightarrow> csvLineInherited date grade) gs)" for date gs
    by (induction gs) (auto split: PropertyRead.splits)
  have outer: "concat (map csvRowLine
                 (concat (map (\<lambda>date. concat (map (\<lambda>grade. case readDailyRecord data grade date of
                       NoProperty \<Rightarrow> []
                     | OwnRecord r \<Rightarrow> [(date, grade, Some r)]
                     | InheritedMember \<Rightarrow> [(date, grade, None)]) gs)) ds)))
        = concat (map (\<lambda>date. concat (map (\<lambda>grade. case readDailyRecord data grade date of
                       NoProperty \<Rightarrow> []
                     | OwnRecord r \<Rightarrow> csvLine date grade r
                     | InheritedMember \<Rightarrow> csvLineInherited date grade) gs)) ds)" for ds gs
    by (induction ds) (simp_all add: inner)
  show ?thesis
    unfolding exportToCsv_def csvRows_def outer
    by (simp add: foldl_append_reads foldl_append_blocks)
qed

lemma sorted_wrt_concat_map:
  assumes "sorted_wrt Q xs"
    and "\<And>x. x \<in> set xs \<Longrightarrow> sorted_wrt P (f x)"
    and "\<And>x y a b. Q x y \<Longrightarrow> a \<in> set (f x) \<Longrightarrow> b \<in> set (f y) \<Longrightarrow> P a b"
  shows "sorted_wrt P (concat (map f xs))"
  using assms
proof (induction xs)
  case Nil
  then show ?case by simp
next
  case (Cons x xs)
  then show ?case
    by (auto simp: sorted_wrt_append)
qed

lemma gradeRows_set:
  "set (concat (map (\<lambda>grade. case readDailyRecord data grade date of NoProperty \<Rightarrow> []
                      | OwnRecord r \<Rightarrow> [(date, grade, Some r)]
                      | InheritedMember \<Rightarrow> [(date, grade, None)]) gs))
   = {(d, g, v). d = date \<and> g \<in> set gs
        \<and> (readDailyRecord data g date = InheritedMember \<and> v = None
            \<or> (\<exists>r. readDailyRecord data g date = OwnRecord r \<and> v = Some r))}"
  by (induction gs) (auto split: PropertyRead.splits)

lemma gradeRows_sorted:
  "sorted_wrt rowBefore
     (concat (map (\<lambda>grade. case readDailyRecord data grade date of NoProperty \<Rightarrow> []
                      | OwnRecord r \<Rightarrow> [(date, grade, Some r)]
                      | InheritedMember \<Rightarrow> [(date, grade, None)]) CLASS_GRADES))"
proof (rule sorted_wrt_concat_map[where Q = "\<lambda>g h. gradeIndex g < gradeIndex h"])
  show "sorted_wrt (\<lambda>g h. gradeIndex g < gradeIndex h) CLASS_GRADES"
    by (simp add: CLASS_GRADES_def)
next
  fix x
  show "sorted_wrt rowBefore (case readDailyRecord data x date of NoProperty \<Rightarrow> []
          | OwnRecord r \<Rightarrow> [(date, x, Some r)] | InheritedMember \<Rightarrow> [(date, x, None)])"
    by (simp split: PropertyRead.splits)
next
  fix x y a b
  assume "gradeIndex x < gradeIndex y"
    and "a \<in> set (case readDailyRecord data x date of NoProperty \<Rightarrow> []
          | OwnRecord r \<Rightarrow> [(date, x, Some r)] | InheritedMember \<Rightarrow> [(date, x, None)])"
    and "b \<in> set (case readDailyRecord data y date of NoProperty \<Rightarrow> []
          | OwnRecord r \<Rightarrow> [(date, y, Some r)] | InheritedMember \<Rightarrow> [(date, y, None)])"
  then show "rowBefore a b"
    by (auto simp: rowBefore_def split: PropertyRead.splits)
qed

lemma csvRows_set:
  "set (csvRows data)
     = {(d, g, v). d \<in> set (allDates data)
          \<and> (readDailyRecord data g d = InheritedMember \<and> v = None
              \<or> (\<exists>r. readDailyRecord data g d = OwnRecord r \<and> v = Some r))}"
  unfolding csvRows_def set_concat set_map
  by (auto simp: gradeRows_set set_CLASS_GRADES sortedDates_props simp del: set_concat)


lemma csvRows_plain:
  assumes "plainDateKeys data"
  shows "set (csvRows data) = {(d, g, v). \<exists>r. recordAt data g d = Some r \<and> v = Some r}"
proof -
  have "readDailyRecord data g d \<noteq> InheritedMember" if "d \<in> set (allDates data)" for g d
    using assms that by (auto simp: plainDateKeys_def read_inherited_iff)
  then show ?thesis
    using recordAt_in_allDates by (auto simp: csvRows_set read_OwnRecord_iff)
qed

lemma csvRows_sorted: "sorted_wrt rowBefore (csvRows data)"
  unfolding csvRows_def
proof (rule sorted_wrt_concat_map[where Q = "(<)"])
  show "sorted_wrt (<) (sortedDates data)"
    by (simp add: strict_sorted_iff sortedDates_props)
next
  fix x
  show "sorted_wrt rowBefore
          (concat (map (\<lambda>grade. case readDailyRecord data grade x of NoProperty \<Rightarrow> []
                      | OwnRecord r \<Rightarrow> [(x, grade, Some r)]
                      | InheritedMember \<Rightarrow> [(x, grade, None)]) CLASS_GRADES))"
    by (rule gradeRows_sorted)
next
  fix x y :: string and a b
  assume "x < y"
    and "a \<in> set (concat (map (\<lambda>grade. case readDailyRecord data grade x of NoProperty \<Rightarrow> []
                      | OwnRecord r \<Rightarrow> [(x, grade, Some r)]
                      | InheritedMember \<Rightarrow> [(x, grade, None)]) CLASS_GRADES))"
    and "b \<in> set (concat (map (\<lambda>grade. case readDailyRecord data grade y of NoProperty \<Rightarrow> []
                      | OwnRecord r \<Rightarrow> [(y, grade, Some r)]
                      | InheritedMember \<Rightarrow> [(y, grade, None)]) CLASS_GRADES))"
  then show "rowBefore a b"
    by (auto simp: gradeRows_set rowBefore_def simp del: set_concat)
qed

lemma distinct_if_sorted_wrt_neq: "sorted_wrt (\<lambda>a b. a \<noteq> b) xs \<Longrightarrow> distinct xs"
  by (induction xs) auto

lemma csvRows_distinct_keys:
  "distinct (map (\<lambda>(date, grade, v). (date, grade)) (csvRows data))"
proof -
  have "sorted_wrt (\<lambda>a b. a \<noteq> b) (map (\<lambda>(date, grade, v). (date, grade)) (csvRows data))"
    unfolding sorted_wrt_map
    by (rule sorted_wrt_mono_rel[OF _ csvRows_sorted]) (auto simp: rowBefore_def)
  then show ?thesis
    by (rule distinct_if_sorted_wrt_neq)
qed


lemma pdfDateRows_failed:
  "foldl (\<lambda>drawn grade. case drawn of Inl e \<Rightarrow> Inl e
            | Inr rows \<Rightarrow> (case readDailyRecord data grade date of
                 NoProperty \<Rightarrow> Inr rows
               | OwnRecord dailyRecord \<Rightarrow> Inr (rows @ [pdfRowData grade dailyRecord])
               | InheritedMember \<Rightarrow> Inl TypeError)) (Inl e) gs = Inl e"
  by (induction gs) simp_all

lemma pdfDateRows_fold:
  "foldl (\<lambda>drawn grade. case drawn of Inl e \<Rightarrow> Inl e
            | Inr rows \<Rightarrow> (case readDailyRecord data grade date of
                 NoProperty \<Rightarrow> Inr rows
               | OwnRecord dailyRecord \<Rightarrow> Inr (rows @ [pdfRowData grade dailyRecord])
               | InheritedMember \<Rightarrow> Inl TypeError)) (Inr rows) gs
   = (if \<exists>g \<in> set gs. readDailyRecord data g date = InheritedMember then Inl TypeError
      else Inr (rows @ concat (map (\<lambda>g. case readDailyRecord data g date of
                                   OwnRecord dailyRecord \<Rightarrow> [pdfRowData g dailyRecord]
                                 | other \<Rightarrow> []) gs)))"
proof (induction gs arbitrary: rows)
  case Nil
  then show ?case by simp
next
  case (Cons g gs)
  show ?case
    by (cases "readDailyRecord data g date") (simp_all add: Cons.IH pdfDateRows_failed)
qed

lemma pdfDateRows_eq:
  "pdfDateRows data date
   = (if \<exists>g. readDailyRecord data g date = InheritedMember then Inl TypeError
      else Inr (concat (map (\<lambda>g. case readDailyRecord data g date of
                                   OwnRecord dailyRecord \<Rightarrow> [pdfRowData g dailyRecord]
                                 | other \<Rightarrow> []) CLASS_GRADES)))"
  unfolding pdfDateRows_def pdfDateRows_fold by (simp add: set_CLASS_GRADES)

lemma exportToPdf_failed:
  "foldl (\<lambda>doc date. case doc of Inl e \<Rightarrow> Inl e
            | Inr tables \<Rightarrow> (case pdfDateRows data date of
                 Inl e \<Rightarrow> Inl e
               | Inr rows \<Rightarrow> Inr (tables @ [(date, rows)]))) (Inl e) ds = Inl e"
  by (induction ds) simp_all

lemma exportToPdf_fold:
  "foldl (\<lambda>doc date. case doc of Inl e \<Rightarrow> Inl e
            | Inr tables \<Rightarrow> (case pdfDateRows data date of
                 Inl e \<Rightarrow> Inl e
               | Inr rows \<Rightarrow> Inr (tables @ [(date, rows)]))) (Inr tables) ds
   = (if \<exists>d \<in> set ds. \<exists>g. readDailyRecord data g d = InheritedMember then Inl TypeError
      else Inr (tables @ map (\<lambda>d. (d, concat (map (\<lambda>g. case readDailyRecord data g d of
                                   OwnRecord dailyRecord \<Rightarrow> [pdfRowData g dailyRecord]
                                 | other \<Rightarrow> []) CLASS_GRADES))) ds))"
proof (induction ds arbitrary: tables)
  case Nil
  then show ?case by simp
next
  case (Cons d ds)
  show ?case
    by (simp add: Cons.IH pdfDateRows_eq exportToPdf_failed)
qed

lemma exportToPdf_eq:
  "exportToPdf data
   = (if \<exists>d \<in> set (allDates data). \<exists>g. readDailyRecord data g d = InheritedMember
      then Inl TypeError
      else Inr (map (\<lambda>d. (d, concat (map (\<lambda>g. case readDailyRecord data g d of
                                   OwnRecord dailyRecord \<Rightarrow> [pdfRowData g dailyRecord]
                                 | other \<Rightarrow> []) CLASS_GRADES)))
                    (sortedDates data)))"
  unfolding exportToPdf_def exportToPdf_fold by (simp add: sortedDates_props)

lemma exportToPdf_plain:
  assumes "plainDateKeys data"
  shows "\<exists>tables. exportToPdf data = Inr tables
           \<and> map fst tables = sortedDates data
           \<and> (\<forall>g d r. recordAt data g d = Some r \<longrightarrow>
                 (\<exists>rows. (d, rows) \<in> set tables \<and> pdfRowData g r \<in> set rows))"
proof -
  let ?rows = "\<lambda>d. concat (map (\<lambda>g. case readDailyRecord data g d of
                                   OwnRecord dailyRecord \<Rightarrow> [pdfRowData g dailyRecord]
                                 | other \<Rightarrow> []) CLASS_GRADES)"
  let ?tables = "map (\<lambda>d. (d, ?rows d)) (sortedDates data)"
  have none: "\<not> (\<exists>d \<in> set (allDates data). \<exists>g. readDailyRecord data g d = InheritedMember)"
    using assms by (auto simp: plainDateKeys_def read_inherited_iff)
  have eq: "exportToPdf data = Inr ?tables"
    by (simp only: exportToPdf_eq none if_False)
  have fst: "map fst ?tables = sortedDates data"
    by (simp add: comp_def)
  have row: "\<exists>rows. (d, rows) \<in> set ?tables \<and> pdfRowData g r \<in> set rows"
    if r: "recordAt data g d = Some r" for g d r
  proof -
    have "d \<in> set (sortedDates data)"
      using recordAt_in_allDates [OF r] by (simp add: sortedDates_props)
    then have "(d, ?rows d) \<in> set ?tables"
      by auto
    moreover have "pdfRowData g r \<in> set (?rows d)"
    proof -
      have "g \<in> set CLASS_GRADES"
        by (simp add: set_CLASS_GRADES)
      moreover have "pdfRowData g r
          \<in> set (case readDailyRecord data g d of
                   OwnRecord dailyRecord \<Rightarrow> [pdfRowData g dailyRecord] | other \<Rightarrow> [])"
        by (simp add: read_own [OF r])
      ultimately show ?thesis
        unfolding set_concat set_map by blast
    qed
    ultimately show ?thesis by blast
  qed
  show ?thesis
    using eq fst row by blast
qed

lemma exportToPdf_throws:
  assumes "data g \<noteq> None" and "recordAt data g d = None"
    and "d \<in> set (allDates data)" and "d \<in> set objectPrototypeMembers"
  shows "exportToPdf data = Inl TypeError"
proof -
  have "readDailyRecord data g d = InheritedMember"
    using assms by (simp add: read_inherited_iff)
  then have "\<exists>d \<in> set (allDates data). \<exists>g. readDailyRecord data g d = InheritedMember"
    using assms(3) by blast
  then show ?thesis
    by (simp only: exportToPdf_eq if_True)
qed

section \<open>Percentages and the text of numbers\<close>

text \<open>
  The rounding model: \<open>binaryExponent\<close> is the binary exponent, \<open>roundToDouble\<close> is within
  half a unit in the last place, and the decimal fraction 0.1 and the two percentages of
  the export scenario round to the doubles that JavaScript computes.  Counts print as
  JavaScript prints them: in full while the shortest decimal has at most 21 digits, in
  exponent notation beyond, and a sum beyond \<open>2 ^ 53\<close> is rounded.
\<close>

lemma bitlen_rat_bounds:
  assumes "0 < a"
  shows "power_int (2::rat) (bitlen a - 1) \<le> of_int a" "of_int a < power_int (2::rat) (bitlen a)"
proof -
  have ge1: "1 \<le> bitlen a"
    using assms by (simp add: bitlen_alt_def)
  have "(2::int) ^ nat (bitlen a - 1) \<le> a" "a < 2 ^ nat (bitlen a)"
    using bitlen_bounds [OF assms] by simp_all
  then have "(of_int ((2::int) ^ nat (bitlen a - 1)) :: rat) \<le> of_int a"
    "(of_int a :: rat) < of_int (2 ^ nat (bitlen a))"
    by (simp_all only: of_int_le_iff of_int_less_iff)
  then show "power_int (2::rat) (bitlen a - 1) \<le> of_int a" "of_int a < power_int (2::rat) (bitlen a)"
    using ge1 by (simp_all add: power_int_def)
qed

lemma binaryExponent_bounds:
  assumes "0 < x"
  shows "power_int 2 (binaryExponent x) \<le> x \<and> x < power_int 2 (binaryExponent x + 1)"
proof -
  obtain a b where q: "quotient_of x = (a, b)" by (cases "quotient_of x")
  have b: "0 < b" using q by (rule quotient_of_denom_pos)
  have x: "x = of_int a / of_int b" using q by (rule quotient_of_div)
  have a: "0 < a" using assms b by (simp add: x zero_less_divide_iff)
  define k where "k = bitlen a - bitlen b"
  have bb: "(0::rat) < of_int b" using b by simp
  have lo: "power_int 2 (k - 1) \<le> x"
  proof -
    have "power_int (2::rat) (k - 1) = power_int 2 (bitlen a - 1) / power_int 2 (bitlen b)"
      by (simp add: k_def power_int_diff [symmetric] algebra_simps)
    also have "\<dots> \<le> of_int a / power_int 2 (bitlen b)"
      using bitlen_rat_bounds(1) [OF a] by (simp add: divide_right_mono)
    also have "\<dots> \<le> of_int a / of_int b"
      using bitlen_rat_bounds(2) [OF b] a bb by (simp add: frac_le)
    finally show ?thesis by (simp add: x)
  qed
  have hi: "x < power_int 2 (k + 1)"
  proof -
    have "x < power_int 2 (bitlen a) / of_int b"
      using bitlen_rat_bounds(2) [OF a] bb by (simp add: x divide_strict_right_mono)
    also have "\<dots> \<le> power_int 2 (bitlen a) / power_int 2 (bitlen b - 1)"
      using bitlen_rat_bounds(1) [OF b] by (simp add: frac_le)
    also have "\<dots> = power_int (2::rat) (k + 1)"
      by (simp add: k_def power_int_diff [symmetric] algebra_simps)
    finally show ?thesis .
  qed
  have be: "binaryExponent x = (if power_int 2 k \<le> x then k else k - 1)"
    by (simp add: binaryExponent_def q k_def)
  show ?thesis
    using lo hi by (auto simp: be)
qed

lemma roundHalfEven_error: "\<bar>of_int (roundHalfEven y) - y\<bar> \<le> 1 / 2"
proof -
  have "of_int \<lfloor>y\<rfloor> \<le> y" "y < of_int \<lfloor>y\<rfloor> + 1"
    by linarith+
  then show ?thesis
    by (auto simp: roundHalfEven_def Let_def abs_le_iff)
qed

lemma roundToDouble_error:
  assumes "x \<noteq> 0"
  shows "\<bar>roundToDouble x - x\<bar> \<le> power_int 2 (binaryExponent \<bar>x\<bar> - 53)"
proof -
  define scale :: rat where "scale = power_int 2 (52 - binaryExponent \<bar>x\<bar>)"
  have pos: "0 < scale"
    by (simp add: scale_def zero_less_power_int)
  define m where "m = roundHalfEven (\<bar>x\<bar> * scale)"
  have r: "roundToDouble x = sgn x * of_int m / scale"
    using assms by (simp add: roundToDouble_def Let_def scale_def m_def)
  have xs: "x = sgn x * \<bar>x\<bar>"
    by (simp add: sgn_mult_abs)
  have "roundToDouble x - x = sgn x * (of_int m / scale - \<bar>x\<bar>)"
    by (subst (2) xs) (simp add: r algebra_simps)
  then have "\<bar>roundToDouble x - x\<bar> = \<bar>sgn x * (of_int m / scale - \<bar>x\<bar>)\<bar>"
    by simp
  also have "\<dots> = \<bar>of_int m / scale - \<bar>x\<bar>\<bar>"
    using assms by (simp add: abs_mult abs_sgn_eq)
  also have "\<dots> = \<bar>of_int m - \<bar>x\<bar> * scale\<bar> / scale"
  proof -
    have "of_int m / scale - \<bar>x\<bar> = (of_int m - \<bar>x\<bar> * scale) / scale"
      using pos by (simp add: field_simps)
    then show ?thesis
      using pos by (simp add: abs_divide)
  qed
  also have "\<dots> \<le> (1 / 2) / scale"
    unfolding m_def
    by (rule divide_right_mono [OF roundHalfEven_error]) (use pos in simp)
  also have "\<dots> = power_int 2 (binaryExponent \<bar>x\<bar> - 53)"
  proof -
    have e: "binaryExponent \<bar>x\<bar> - 53 = - 1 - (52 - binaryExponent \<bar>x\<bar>)" by simp
    have "power_int (2::rat) (- 1 - (52 - binaryExponent \<bar>x\<bar>))
        = power_int 2 (- 1) / power_int 2 (52 - binaryExponent \<bar>x\<bar>)"
      by (rule power_int_diff) simp
    then show ?thesis
      unfolding e scale_def by (simp add: power_int_minus)
  qed
  finally show ?thesis .
qed

lemma roundToDouble_tenth: "roundToDouble (1 / 10) = 3602879701896397 / 36028797018963968"
  by code_simp

lemma percentage_15_of_19:
  "dailyPercentage 15 19 = Finite (2777713585960421 / 35184372088832)"
  "dailyPercentage 4 19 = Finite (5925788983382231 / 281474976710656)"
  by code_simp+

lemma toDouble_zero: "toDouble 0 = 0"
  by (simp add: toDouble_def roundToDouble_def)

lemma jsAdd_zero: "jsAdd 0 0 = 0"
  by (simp add: jsAdd_def toDouble_zero roundToDouble_def)

lemma decimalDigits_digit: "0 \<le> n \<Longrightarrow> n < 10 \<Longrightarrow> decimalDigits n = [''0123456789'' ! nat n]"
  by (simp add: decimalDigits.simps)

lemma numberToString_zero: "numberToString 0 = ''0''"
  by code_simp

lemma numberToString_examples:
  "numberToString 19 = ''19''"
  "numberToString (- 5) = ''-5''"
  "numberToString 9007199254740993 = ''9007199254740992''"
  "numberToString (2 ^ 60) = ''1152921504606847000''"
  "numberToString (10 ^ 21) = ''1e+21''"
  "numberToString (2 ^ 70) = ''1.1805916207174113e+21''"
  by code_simp+

lemma jsAdd_rounds: "jsAdd (2 ^ 53) 1 = 2 ^ 53"
  by code_simp

lemma toFixed1_zero: "toFixed1 (Finite 0) = ''0.0''"
  by (simp add: toFixed1_def decimalDigits_digit)

lemma dailyPercentage_finite: "\<exists>x. dailyPercentage n t = Finite x"
  by (simp add: dailyPercentage_def jsTimes100_def jsDivide_def)

text \<open>
  C5.  For a record with present = 0 and absent = 0 both percentages are the number 0 and
  print as \<open>0.0\<close>, in the line of the CSV exporter and in the row of the PDF exporter.
  The quotient is formed only under the guard \<open>totalRecorded > 0\<close>: with a total of zero the
  percentage is 0 whatever the count, and no percentage is ever \<open>NaN\<close> or infinite, which is
  what the division gives on a zero denominator (without the guard, 0 / 0 is \<open>NaN\<close>).
\<close>

theorem C5_zero_record_percentages:
  "dailyPercentage 0 (0 + 0) = Finite 0
   \<and> toFixed1 (dailyPercentage 0 (0 + 0)) = ''0.0''
   \<and> csvLine date g \<lparr>present = 0, absent = 0\<rparr>
       = date @ '','' @ gradeLabel g @ '','' @ numberToString (CLASS_STRENGTHS g)
           @ '',0,0,0.0%,0.0%'' @ newline
   \<and> pdfRowData g \<lparr>present = 0, absent = 0\<rparr>
       = [gradeLabel g, numberToString (CLASS_STRENGTHS g), ''0'', ''0'', ''0.0%'', ''0.0%'']
   \<and> (\<forall>n t. t = 0 \<longrightarrow> dailyPercentage n t = Finite 0)
   \<and> (\<forall>n t. \<exists>x. dailyPercentage n t = Finite x)
   \<and> unguardedPercentage 0 0 = NaN"
proof -
  have zero: "dailyPercentage n 0 = Finite 0" for n
    by (simp add: dailyPercentage_def)
  have nan: "unguardedPercentage 0 0 = NaN"
    by (simp add: unguardedPercentage_def jsDivide_def jsTimes100_def)
  show ?thesis
    by (simp add: zero nan dailyPercentage_finite toFixed1_zero csvLine_def pdfRowData_def
        jsAdd_zero toDouble_zero numberToString_zero)
qed

theorem C5_zero_record_percentages_witness:
  "(0::int) = 0 \<and> dailyPercentage 7 0 = Finite 0
   \<and> csvLine ''2024-01-01'' SIXTH \<lparr>present = 0, absent = 0\<rparr>
       = ''2024-01-01,6th Grade,19,0,0,0.0%,0.0%'' @ newline"
  using C5_zero_record_percentages [of "''2024-01-01''" SIXTH]
  by (simp add: numberToString_examples)

section \<open>The CSV text\<close>

lemma exportToCsv_scenarioStore:
  "exportToCsv scenarioStore
     = dataUriPrefix @ csvHeader @ newline @ ''2024-06-01,6th Grade,19,15,4,78.9%,21.1%'' @ newline"
  by code_simp

lemma exportToCsv_scenarioState:
  "exportToCsv (classAttendanceData scenarioState)
     = dataUriPrefix @ csvHeader @ newline @ ''2024-06-01,6th Grade,19,15,4,78.9%,21.1%'' @ newline"
  by code_simp




text \<open>
  On a store none of whose date keys names a member of \<open>Object.prototype\<close> the rows are
  the recorded pairs, one row each, ordered by date and then by the position of the grade;
  the text is the header followed by the rows' lines, and the line of a record is the date,
  the grade's label and five more cells, ended by the one newline it contains after the date.
\<close>

lemma digit_char: "k < 10 \<Longrightarrow> ''0123456789'' ! k \<in> set ''0123456789''"
  by (rule nth_mem) simp

lemma decimalDigits_chars: "set (decimalDigits n) \<subseteq> set ''0123456789''"
proof (induction n rule: decimalDigits.induct)
  case (1 n)
  show ?case
  proof (cases "n < 10")
    case True
    then have "nat n < 10" by simp
    then show ?thesis
      using digit_char [of "nat n"] True by (subst decimalDigits.simps) simp
  next
    case False
    have "nat (n mod 10) < 10" by simp
    then show ?thesis
      using digit_char [of "nat (n mod 10)"] False "1.IH"
      by (subst decimalDigits.simps) simp
  qed
qed

lemma decimalDigits_no_newline: "CHR 0x0A \<notin> set (decimalDigits n)"
  using decimalDigits_chars [of n] by auto

lemma stripTrailingZeros_subset: "set (stripTrailingZeros s) \<subseteq> set s"
  by (auto simp: stripTrailingZeros_def dest: set_dropWhileD)

lemma magnitudeToString_no_newline: "CHR 0x0A \<notin> set (magnitudeToString n)"
proof -
  let ?digits = "decimalDigits (shortestDecimal (toDouble n) (length (decimalDigits (toDouble n)) - 1))"
  have strip: "CHR 0x0A \<notin> set (stripTrailingZeros ?digits)"
    using stripTrailingZeros_subset [of ?digits] decimalDigits_no_newline by blast
  show ?thesis
    using strip decimalDigits_no_newline
    by (cases "stripTrailingZeros ?digits")
       (auto simp: magnitudeToString_def Let_def)
qed

lemma numberToString_no_newline: "CHR 0x0A \<notin> set (numberToString n)"
  by (simp add: numberToString_def magnitudeToString_no_newline)

lemma toFixed1_no_newline: "CHR 0x0A \<notin> set (toFixed1 v)"
  by (cases v)
     (simp_all add: toFixed1_def Let_def magnitudeToString_no_newline decimalDigits_no_newline)

lemma gradeLabel_no_newline: "CHR 0x0A \<notin> set (gradeLabel g)"
  by (cases g) simp_all

lemma csvLine_one_line:
  "\<exists>cells. csvLine date grade dailyRecord = date @ '','' @ gradeLabel grade @ '','' @ cells @ newline
       \<and> CHR 0x0A \<notin> set (gradeLabel grade @ '','' @ cells)"
  by (simp add: csvLine_def Let_def numberToString_no_newline toFixed1_no_newline
      gradeLabel_no_newline)

lemma csv_rows_of_plain_store:
  assumes "plainDateKeys data"
  shows "exportToCsv data
           = dataUriPrefix @ csvHeader @ newline @ concat (map csvRowLine (csvRows data))"
    and "set (csvRows data) = {(d, g, v). \<exists>r. recordAt data g d = Some r \<and> v = Some r}"
    and "distinct (map (\<lambda>(date, grade, v). (date, grade)) (csvRows data))"
    and "sorted_wrt rowBefore (csvRows data)"
  using assms exportToCsv_rows csvRows_plain csvRows_distinct_keys csvRows_sorted by blast+

text \<open>
  C6.  The text built by the CSV exporter is the data-URI prefix followed by the file's
  text, whose first line is the literal header, for every store.  For the store
  \<open>{SIXTH: {"2024-06-01": {present: 15, absent: 4}}}\<close>, as it is and as loaded (the other
  grades backfilled with empty objects), with strength 19 for the sixth grade, the file
  has the single data row \<open>2024-06-01,6th Grade,19,15,4,78.9%,21.1%\<close>.
\<close>

theorem C6_csv_header_and_scenario:
  "csvHeader = ''Date,Class Grade,Total Strength,Present,Absent,Present Percentage,Absent Percentage''
   \<and> (\<forall>data. \<exists>lines. exportToCsv data = dataUriPrefix @ csvHeader @ newline @ lines)
   \<and> CLASS_STRENGTHS SIXTH = 19
   \<and> exportToCsv scenarioStore
       = dataUriPrefix @ csvHeader @ newline
           @ ''2024-06-01,6th Grade,19,15,4,78.9%,21.1%'' @ newline
   \<and> exportToCsv (classAttendanceData scenarioState)
       = dataUriPrefix @ csvHeader @ newline
           @ ''2024-06-01,6th Grade,19,15,4,78.9%,21.1%'' @ newline"
  using exportToCsv_rows exportToCsv_scenarioStore exportToCsv_scenarioState
  by (simp add: csvHeader_def)


section \<open>Grades as keys\<close>

lemma INITIAL_all: "INITIAL_CLASS_ATTENDANCE_DATA g = Some []"
  by (cases g) (simp_all add: INITIAL_CLASS_ATTENDANCE_DATA_def CLASS_GRADES_def)

lemma load_cases:
  "load (Inl e) JSON_parse = INITIAL_CLASS_ATTENDANCE_DATA"
  "load (Inr None) JSON_parse = INITIAL_CLASS_ATTENDANCE_DATA"
  "load (Inr (Some [])) JSON_parse = INITIAL_CLASS_ATTENDANCE_DATA"
  "JSON_parse text = Inl e \<Longrightarrow> load (Inr (Some text)) JSON_parse = INITIAL_CLASS_ATTENDANCE_DATA"
  "text \<noteq> [] \<Longrightarrow> JSON_parse text = Inr parsedData \<Longrightarrow>
     load (Inr (Some text)) JSON_parse = INITIAL_CLASS_ATTENDANCE_DATA ++ parsedData"
  by (simp_all add: load_def)

lemma merged_grade:
  "(INITIAL_CLASS_ATTENDANCE_DATA ++ parsedData) g
     = (case parsedData g of None \<Rightarrow> Some [] | Some m \<Rightarrow> Some m)"
  by (simp add: map_add_def INITIAL_all split: option.splits)

lemma load_all_grades: "load getItem JSON_parse g \<noteq> None"
  by (auto simp: load_def INITIAL_all merged_grade split: sum.splits option.splits)

lemma update_keeps_grades:
  "data g' \<noteq> None \<Longrightarrow> updateClassAttendanceData g d p a data g' \<noteq> None"
  by (simp add: updateClassAttendanceData_def)

lemma saveAll_fold_keeps_grades:
  "classAttendanceData st g' \<noteq> None \<Longrightarrow>
   classAttendanceData
       (foldl (\<lambda>st grade. case buf grade of None \<Rightarrow> st
                 | Some editedRecord \<Rightarrow>
                     handleUpdateDailyClassAttendance grade d
                       (present editedRecord) (absent editedRecord) st) st gs) g' \<noteq> None"
proof (induction gs arbitrary: st)
  case Nil
  then show ?case by simp
next
  case (Cons g gs)
  show ?case
  proof (cases "buf g")
    case None
    then show ?thesis using Cons.IH [OF Cons.prems] by simp
  next
    case (Some r)
    let ?st = "handleUpdateDailyClassAttendance g d (present r) (absent r) st"
    have "classAttendanceData ?st g' \<noteq> None"
      using Cons.prems
      by (simp add: handleUpdateDailyClassAttendance_def update_keeps_grades del: not_None_eq)
    from Cons.IH [OF this] show ?thesis by (simp add: Some)
  qed
qed

lemma handle_keeps_grades:
  assumes "classAttendanceData s g \<noteq> None"
  shows "classAttendanceData (handle shiftDate s e) g \<noteq> None"
proof (cases e)
  case SaveAllClick
  show ?thesis
    using saveAll_fold_keeps_grades [OF assms, where buf = "editingDailyAttendance s"
        and d = "selectedDate s" and gs = CLASS_GRADES]
    by (simp add: SaveAllClick handleSaveAllClick_def)
next
  case (UpdateDaily g' d p a)
  show ?thesis
    using assms
    by (simp add: UpdateDaily handleUpdateDailyClassAttendance_def update_keeps_grades
        del: not_None_eq)
qed (use assms in \<open>simp_all add: goToPreviousDay_def goToNextDay_def edit_frame bulk_frame
      handleCancelBulkEditClick_def\<close>)

lemma run_keeps_grades:
  "classAttendanceData s g \<noteq> None \<Longrightarrow> classAttendanceData (run shiftDate s events) g \<noteq> None"
  unfolding run_def
proof (induction events arbitrary: s)
  case Nil
  then show ?case by simp
next
  case (Cons e events)
  from Cons.IH [OF handle_keeps_grades [OF Cons.prems]] show ?case by simp
qed

text \<open>
  C8.  Every grade of the enumeration is a key of the attendance structure: after loading
  with nothing persisted (all five map to the empty object), after a parse failure (the
  same), after loading a snapshot (the snapshot's object for a grade it has, the empty
  object for a grade it lacks), after any load at all, after a commit from a state where
  the key was present (and the committed grade is a key in any case), and so in every
  state reached from the initial state by any sequence of handler calls.
\<close>

text \<open>
  C8.  Every grade of the enumeration is a key of the attendance structure: after loading
  with nothing persisted (all five map to the empty object), after a parse failure (the
  same), after loading a snapshot (the snapshot's object for a grade it has, the empty
  object for a grade it lacks), after any load at all, after a commit from a state where
  the key was present (and the committed grade is a key in any case), and so in every
  state reached from the initial state by any sequence of handler calls.
\<close>

theorem C8_all_grades_present:
  "(\<forall>g. load (Inr None) JSON_parse g = Some [])
   \<and> (\<forall>g. JSON_parse text = Inl e \<longrightarrow> load (Inr (Some text)) JSON_parse g = Some [])
   \<and> (\<forall>g. text \<noteq> [] \<and> JSON_parse text = Inr snapshot \<longrightarrow>
          load (Inr (Some text)) JSON_parse g
            = (case snapshot g of None \<Rightarrow> Some [] | Some m \<Rightarrow> Some m))
   \<and> (\<forall>g. load getItem JSON_parse g \<noteq> None)
   \<and> (\<forall>g. classAttendanceData s g \<noteq> None \<longrightarrow>
          classAttendanceData (handleUpdateDailyClassAttendance grade date p a s) g \<noteq> None)
   \<and> classAttendanceData (handleUpdateDailyClassAttendance grade date p a s) grade \<noteq> None
   \<and> (\<forall>g. classAttendanceData (run shiftDate (initialState getItem JSON_parse today) events) g
          \<noteq> None)"
proof -
  have "classAttendanceData (run shiftDate (initialState getItem JSON_parse today) events) g \<noteq> None"
    for g
    by (rule run_keeps_grades) (simp add: initialState_def load_all_grades)
  then show ?thesis
    by (simp add: load_cases INITIAL_all merged_grade load_all_grades
        handleUpdateDailyClassAttendance_def update_keeps_grades updateClassAttendanceData_def)
qed

theorem C8_all_grades_present_witness:
  "''snapshot'' \<noteq> [] \<and> (\<lambda>text. Inr scenarioStore) ''snapshot'' = (Inr scenarioStore :: error + ClassAttendanceData)
   \<and> scenarioStore TENTH = None
   \<and> load (Inr (Some ''snapshot'')) (\<lambda>text. Inr scenarioStore) TENTH = Some []
   \<and> load (Inr (Some ''snapshot'')) (\<lambda>text. Inr scenarioStore) SIXTH
        = Some [(''2024-06-01'', \<lparr>present = 15, absent = 4\<rparr>)]
   \<and> (\<lambda>text. Inl SyntaxError) ''{oops'' = (Inl SyntaxError :: error + ClassAttendanceData)
   \<and> load (Inr (Some ''{oops'')) (\<lambda>text. Inl SyntaxError) NINTH = Some []
   \<and> classAttendanceData scenarioState NINTH \<noteq> None
   \<and> classAttendanceData
        (handleUpdateDailyClassAttendance SEVENTH ''2024-06-02'' 40 8 scenarioState) NINTH \<noteq> None"
  using C8_all_grades_present [of "\<lambda>text. Inr scenarioStore" "''snapshot''" SyntaxError scenarioStore
      "Inr (Some ''snapshot'')" scenarioState SEVENTH "''2024-06-02''" 40 8 "\<lambda>n d. d" "''2024-06-01''" "[]"]
    C8_all_grades_present [of "\<lambda>text. Inl SyntaxError" "''{oops''" SyntaxError scenarioStore
      "Inr (Some ''{oops'')" scenarioState SEVENTH "''2024-06-02''" 40 8 "\<lambda>n d. d" "''2024-06-01''" "[]"]
  by (simp add: scenarioStore_def scenarioState_def initialState_def)

section \<open>Bulk save\<close>

text \<open>
  What holds in every state: after bulk entry, any field edits and save-all, every grade has
  a record on the selected date, the store's former record or the zero record for a grade
  left alone; a record once in the store stays through every handler call; the line of
  every record is in the CSV text; and on a store none of whose date keys names a member of
  \<open>Object.prototype\<close> the PDF exporter returns its tables with the row of every record.
\<close>

lemma handle_keeps_record:
  assumes "recordAt (classAttendanceData s) g d \<noteq> None"
  shows "recordAt (classAttendanceData (handle shiftDate s e)) g d \<noteq> None"
  using assms
  by (cases e)
     (simp_all add: goToPreviousDay_def goToNextDay_def handleUpdateDailyClassAttendance_def
        recordAt_update edit_frame bulk_frame handleCancelBulkEditClick_def saveAll_recordAt
        del: not_None_eq)

lemma run_keeps_record:
  "recordAt (classAttendanceData s) g d \<noteq> None \<Longrightarrow>
   recordAt (classAttendanceData (run shiftDate s events)) g d \<noteq> None"
  unfolding run_def
proof (induction events arbitrary: s)
  case Nil
  then show ?case by simp
next
  case (Cons e events)
  from Cons.IH [OF handle_keeps_record [OF Cons.prems]] show ?case by simp
qed


lemma editSession_defined:
  "editingDailyAttendance s g \<noteq> None \<Longrightarrow> editingDailyAttendance (editSession edits s) g \<noteq> None"
  by (induction edits rule: rev_induct)
     (auto simp: editSession_def edit_buffer split: prod.splits)

lemma bulk_save_after_edits:
  "recordAt (classAttendanceData (handleSaveAllClick (editSession edits (handleBulkEditClick s))))
       g (selectedDate s)
     = editingDailyAttendance (editSession edits (handleBulkEditClick s)) g"
  "editingDailyAttendance (editSession edits (handleBulkEditClick s)) g \<noteq> None"
  "g \<notin> fst ` set edits \<Longrightarrow>
     editingDailyAttendance (editSession edits (handleBulkEditClick s)) g
       = Some (recordOrZero (classAttendanceData s) g (selectedDate s))"
proof -
  show defined: "editingDailyAttendance (editSession edits (handleBulkEditClick s)) g \<noteq> None"
    by (rule editSession_defined) (simp add: bulk_buffer)
  show "recordAt (classAttendanceData (handleSaveAllClick (editSession edits (handleBulkEditClick s))))
       g (selectedDate s)
     = editingDailyAttendance (editSession edits (handleBulkEditClick s)) g"
    using defined by (simp add: saveAll_recordAt editSession_frame bulk_frame del: not_None_eq)
  show "editingDailyAttendance (editSession edits (handleBulkEditClick s)) g
       = Some (recordOrZero (classAttendanceData s) g (selectedDate s))"
    if "g \<notin> fst ` set edits"
    using that by (simp add: editSession_untouched bulk_buffer)
qed




end
